theory Spec2Isabelle
  imports Main
begin

section \<open>The API configuration model (src/api/core/configs/\_api.py)\<close>

text \<open>
  A shallow embedding of \<^verbatim>\<open>ApiConfig\<close>: its field declarations, its four field
  validators and its \<^verbatim>\<open>model_validator(mode="before")\<close>, together with the parts of
  Python and pydantic they call. Strings are lists of 8-bit characters; the embedding
  follows Python on ASCII text.
\<close>

subsection \<open>Exceptions\<close>

text \<open>
  \<open>IndexError\<close>, \<open>KeyError\<close> and \<open>ValueError\<close> are Python's; \<open>ValidationError\<close>
  is pydantic's. \<open>Unsupported\<close> is no exception: it marks a format template that uses a
  part of the format mini-language this embedding does not cover (conversion \<open>!\<close>,
  format specification \<open>:\<close>, attribute \<open>.\<close> or index \<open>[\<close> access).
\<close>

datatype error = IndexError | KeyError string | ValueError | ValidationError | Unsupported

subsection \<open>Python string operations\<close>

definition startswith :: "string \<Rightarrow> string \<Rightarrow> bool" where
  "startswith s p = (take (length p) s = p)"

definition endswith :: "string \<Rightarrow> string \<Rightarrow> bool" where
  "endswith s p = (length p \<le> length s \<and> drop (length s - length p) s = p)"

text \<open>\<^verbatim>\<open>p in s\<close> on strings: \<open>p\<close> occurs in \<open>s\<close> as a contiguous substring.\<close>

fun contains :: "string \<Rightarrow> string \<Rightarrow> bool" where
  "contains [] p = (p = [])"
| "contains (c # cs) p = (startswith (c # cs) p \<or> contains cs p)"

definition is_upper :: "char \<Rightarrow> bool" where
  "is_upper c = (65 \<le> (of_char c :: nat) \<and> (of_char c :: nat) \<le> 90)"

definition lower_char :: "char \<Rightarrow> char" where
  "lower_char c = (if is_upper c then char_of ((of_char c :: nat) + 32) else c)"

definition lower :: "string \<Rightarrow> string" where
  "lower s = map lower_char s"

text \<open>The ASCII characters for which Python's \<^verbatim>\<open>str.isspace\<close> holds.\<close>

definition py_space :: "char \<Rightarrow> bool" where
  "py_space c = (let n = (of_char c :: nat) in (9 \<le> n \<and> n \<le> 13) \<or> (28 \<le> n \<and> n \<le> 32))"

definition strip :: "string \<Rightarrow> string" where
  "strip s = rev (dropWhile py_space (rev (dropWhile py_space s)))"

text \<open>\<^verbatim>\<open>s.replace(a, b)\<close> for one-character \<open>a\<close> and \<open>b\<close>.\<close>

definition replace :: "char \<Rightarrow> char \<Rightarrow> string \<Rightarrow> string" where
  "replace a b s = map (\<lambda>c. if c = a then b else c) s"

text \<open>\<^verbatim>\<open>s.split(sep)\<close> for a one-character separator.\<close>

fun split :: "char \<Rightarrow> string \<Rightarrow> string list" where
  "split sep [] = [[]]"
| "split sep (c # cs) =
     (if c = sep then [] # split sep cs
      else (case split sep cs of [] \<Rightarrow> [[c]] | w # ws \<Rightarrow> (c # w) # ws))"

definition is_digit :: "char \<Rightarrow> bool" where
  "is_digit c = (48 \<le> (of_char c :: nat) \<and> (of_char c :: nat) \<le> 57)"

definition digit_val :: "char \<Rightarrow> int" where
  "digit_val c = int (of_char c) - 48"

text \<open>
  The digits of a decimal literal: at least one digit, single underscores allowed
  between digits only. The flag says whether the previous character was a digit.
\<close>

fun parse_digits :: "string \<Rightarrow> int \<Rightarrow> bool \<Rightarrow> int option" where
  "parse_digits [] acc prev = (if prev then Some acc else None)"
| "parse_digits (c # cs) acc prev =
     (if is_digit c then parse_digits cs (acc * 10 + digit_val c) True
      else if c = CHR ''_'' \<and> prev \<and> cs \<noteq> [] \<and> is_digit (hd cs) then parse_digits cs acc False
      else None)"

text \<open>
  The ASCII characters \<^verbatim>\<open>int\<close> skips around a literal: tab to carriage return, and
  the space. The separators \<^verbatim>\<open>\x1c\<close> to \<^verbatim>\<open>\x1f\<close>, which \<^verbatim>\<open>str.strip\<close> removes, are
  not among them.
\<close>

definition int_space :: "char \<Rightarrow> bool" where
  "int_space c = (let n = (of_char c :: nat) in (9 \<le> n \<and> n \<le> 13) \<or> n = 32)"

text \<open>
  \<^verbatim>\<open>int(s)\<close> for a string: surrounding whitespace is skipped, then an optional sign,
  then the digits, of which the interpreter accepts 4300 at most (its default limit).
  \<open>None\<close> is \<^verbatim>\<open>ValueError\<close>.
\<close>

definition py_int :: "string \<Rightarrow> int option" where
  "py_int s =
     (case rev (dropWhile int_space (rev (dropWhile int_space s))) of
        [] \<Rightarrow> None
      | c # cs \<Rightarrow>
          if 4300 < length (filter is_digit (c # cs)) then None
          else if c = CHR ''-'' then map_option uminus (parse_digits cs 0 False)
          else if c = CHR ''+'' then parse_digits cs 0 False
          else parse_digits (c # cs) 0 False)"

subsection \<open>\<^verbatim>\<open>str.format\<close> with keyword arguments only\<close>

text \<open>
  The scan of a replacement field, started after its opening brace: the field name runs
  to the closing brace. A second opening brace or the end of the template before the
  closing brace is \<^verbatim>\<open>ValueError\<close>.
\<close>

fun parse_field :: "string \<Rightarrow> error + (string \<times> string)" where
  "parse_field [] = Inl ValueError"
| "parse_field (c # cs) =
     (if c = CHR ''}'' then Inr ([], cs)
      else if c = CHR ''{'' then Inl ValueError
      else if c = CHR ''['' \<or> c = CHR ''!'' \<or> c = CHR '':'' then Inl Unsupported
      else (case parse_field cs of
              Inl e \<Rightarrow> Inl e
            | Inr (n, r) \<Rightarrow> Inr (c # n, r)))"

text \<open>
  The value of a field. No positional argument is ever passed, so an empty name
  (automatic numbering) and a numeric name are \<^verbatim>\<open>IndexError\<close>; any other name is
  looked up among the keyword arguments, \<^verbatim>\<open>KeyError\<close> when absent.
\<close>

definition get_field :: "(string \<times> string) list \<Rightarrow> string \<Rightarrow> error + string" where
  "get_field kwargs n =
     (if CHR ''.'' \<in> set n then Inl Unsupported
      else if list_all is_digit n then (if length n < 19 then Inl IndexError else Inl Unsupported)
      else (case map_of kwargs n of
              None \<Rightarrow> Inl (KeyError n)
            | Some v \<Rightarrow> Inr v))"

text \<open>
  \<^verbatim>\<open>template.format(**kwargs)\<close>, left to right: doubled braces stand for one brace, a
  single closing brace is \<^verbatim>\<open>ValueError\<close>, a replacement field is replaced by its value.
  The first error met is the result.
\<close>

function str_format :: "(string \<times> string) list \<Rightarrow> string \<Rightarrow> error + string" where
  "str_format kwargs [] = Inr []"
| "str_format kwargs (c # cs) =
     (if c = CHR ''{'' then
        (case cs of
           [] \<Rightarrow> Inl ValueError
         | d # ds \<Rightarrow>
             if d = CHR ''{'' then
               (case str_format kwargs ds of Inl e \<Rightarrow> Inl e | Inr out \<Rightarrow> Inr (CHR ''{'' # out))
             else
               (case parse_field cs of
                  Inl e \<Rightarrow> Inl e
                | Inr (n, r) \<Rightarrow>
                    (case get_field kwargs n of
                       Inl e \<Rightarrow> Inl e
                     | Inr v \<Rightarrow>
                         (case str_format kwargs r of Inl e \<Rightarrow> Inl e | Inr out \<Rightarrow> Inr (v @ out)))))
      else if c = CHR ''}'' then
        (case cs of
           [] \<Rightarrow> Inl ValueError
         | d # ds \<Rightarrow>
             if d = CHR ''}'' then
               (case str_format kwargs ds of Inl e \<Rightarrow> Inl e | Inr out \<Rightarrow> Inr (CHR ''}'' # out))
             else Inl ValueError)
      else (case str_format kwargs cs of Inl e \<Rightarrow> Inl e | Inr out \<Rightarrow> Inr (c # out)))"
  by pat_completeness auto

lemma parse_field_shorter: "parse_field cs = Inr (n, r) \<Longrightarrow> length r < length cs"
  by (induction cs arbitrary: n r) (auto split: if_splits sum.splits)

termination str_format
proof (relation "measure (\<lambda>(kwargs, s). length s)")
  fix kwargs :: "(string \<times> string) list" and c :: char and cs d ds x n r v
  assume "cs = d # ds" and "parse_field cs = Inr x" and "(n, r) = x"
  then have "length r < length cs"
    using parse_field_shorter [of cs n r] by simp
  then show "((kwargs, r), (kwargs, c # cs)) \<in> measure (\<lambda>(kwargs, s). length s)"
    by simp
qed auto

subsection \<open>The data model\<close>

text \<open>
  \<^verbatim>\<open>HTTPSchemeEnum\<close> is imported from \<^verbatim>\<open>api.core.constants\<close>; the file uses its
  two members.
\<close>

datatype HTTPSchemeEnum = http | https

text \<open>
  \<^verbatim>\<open>DocsConfig\<close> and \<^verbatim>\<open>PathsConfig\<close> are declared in sibling modules; these are the
  attributes the validators read and write. A URL that is \<^verbatim>\<open>None\<close> is \<open>None\<close>.
\<close>

record DocsConfig =
  enabled :: bool
  openapi_url :: "string option"
  docs_url :: "string option"
  redoc_url :: "string option"
  swagger_ui_oauth2_redirect_url :: "string option"

record PathsConfig =
  tmp_dir :: string
  uploads_dir :: string
  data_dir :: string

text \<open>
  \<^verbatim>\<open>info.data\<close>: the fields validated so far, by name. The validators read only the
  string fields \<^verbatim>\<open>name\<close>, \<^verbatim>\<open>slug\<close>, \<^verbatim>\<open>version\<close> and \<^verbatim>\<open>prefix\<close>.
\<close>

type_synonym info_data = "string \<rightharpoonup> string"

subsection \<open>The field validators\<close>

definition check_slug :: "string \<Rightarrow> info_data \<Rightarrow> string" where
  "check_slug val data =
     (if val = [] then
        (case data ''name'' of
           Some n \<Rightarrow>
             replace CHR ''.'' CHR ''-''
               (replace CHR ''_'' CHR ''-'' (replace CHR '' '' CHR ''-'' (strip (lower n))))
         | None \<Rightarrow> val)
      else val)"

definition check_prefix :: "string \<Rightarrow> info_data \<Rightarrow> error + string" where
  "check_prefix val data =
     (if val \<noteq> [] \<and> contains val ''{api_version}'' then
        (case data ''version'' of
           Some v \<Rightarrow> str_format [(''api_version'', v)] val
         | None \<Rightarrow> Inr val)
      else Inr val)"

text \<open>One URL of \<^verbatim>\<open>_check_docs\<close>: expanded when it is non-empty and holds the token.\<close>

definition expand_url :: "string \<Rightarrow> string option \<Rightarrow> error + string option" where
  "expand_url p url =
     (case url of
        None \<Rightarrow> Inr None
      | Some u \<Rightarrow>
          if u \<noteq> [] \<and> contains u ''{api_prefix}'' then
            (case str_format [(''api_prefix'', p)] u of
               Inl e \<Rightarrow> Inl e
             | Inr u' \<Rightarrow> Inr (Some u'))
          else Inr (Some u))"

definition check_docs :: "DocsConfig \<Rightarrow> info_data \<Rightarrow> error + DocsConfig" where
  "check_docs val data =
     (if enabled val then
        (case data ''prefix'' of
           Some p \<Rightarrow>
            (case expand_url p (openapi_url val) of
               Inl e \<Rightarrow> Inl e
             | Inr u1 \<Rightarrow>
            (case expand_url p (docs_url val) of
               Inl e \<Rightarrow> Inl e
             | Inr u2 \<Rightarrow>
            (case expand_url p (redoc_url val) of
               Inl e \<Rightarrow> Inl e
             | Inr u3 \<Rightarrow>
            (case expand_url p (swagger_ui_oauth2_redirect_url val) of
               Inl e \<Rightarrow> Inl e
             | Inr u4 \<Rightarrow>
                 Inr (val\<lparr>openapi_url := u1, docs_url := u2, redoc_url := u3,
                        swagger_ui_oauth2_redirect_url := u4\<rparr>)))))
         | None \<Rightarrow> Inr val)
      else Inr val)"

text \<open>
  \<^verbatim>\<open>_check_paths\<close>, in the order of its statements: \<^verbatim>\<open>tmp_dir\<close> is assigned first, so
  the \<^verbatim>\<open>elif\<close> branch of \<^verbatim>\<open>uploads_dir\<close> formats with the new value. The closing
  \<^verbatim>\<open>FrozenPathsConfig(**val.model_dump())\<close> copies the three values into the frozen class.
\<close>

definition expand_tmp_dir :: "string \<Rightarrow> string \<Rightarrow> error + string" where
  "expand_tmp_dir sl t =
     (if contains t ''{api_slug}'' then str_format [(''api_slug'', sl)] t else Inr t)"

definition expand_uploads_dir :: "string \<Rightarrow> string \<Rightarrow> string \<Rightarrow> error + string" where
  "expand_uploads_dir sl t u =
     (if contains u ''{api_slug}'' then str_format [(''api_slug'', sl)] u
      else if contains u ''{tmp_dir}'' then str_format [(''tmp_dir'', t)] u
      else Inr u)"

definition expand_data_dir :: "string \<Rightarrow> string \<Rightarrow> error + string" where
  "expand_data_dir sl d =
     (if contains d ''{api_slug}'' then str_format [(''api_slug'', sl)] d else Inr d)"

definition check_paths :: "PathsConfig \<Rightarrow> info_data \<Rightarrow> error + PathsConfig" where
  "check_paths val data =
     (case data ''slug'' of
        Some sl \<Rightarrow>
          (case expand_tmp_dir sl (tmp_dir val) of
             Inl e \<Rightarrow> Inl e
           | Inr t \<Rightarrow>
          (case expand_uploads_dir sl t (uploads_dir val) of
             Inl e \<Rightarrow> Inl e
           | Inr u \<Rightarrow>
          (case expand_data_dir sl (data_dir val) of
             Inl e \<Rightarrow> Inl e
           | Inr d \<Rightarrow> Inr (val\<lparr>tmp_dir := t, uploads_dir := u, data_dir := d\<rparr>))))
      | None \<Rightarrow> Inr val)"

subsection \<open>The raw mapping and the launch arguments\<close>

text \<open>
  \<^verbatim>\<open>values\<close>, the mapping \<^verbatim>\<open>_check_args\<close> receives: one entry per key, \<open>None\<close> when
  the key is absent, holding a value of the field's Python type. For a nested model
  (\<^verbatim>\<open>dev\<close>, \<^verbatim>\<open>security\<close>, \<^verbatim>\<open>docs\<close>, \<^verbatim>\<open>paths\<close>) the entry holds the model built from
  the nested mapping, \<open>None\<close> also when the nested model rejects it: those models are
  declared in sibling modules. \<open>raw_ssl_enabled\<close> is the outcome of the lookup
  \<^verbatim>\<open>values["security"]["ssl"]["enabled"]\<close>: its truth value, or the exception raised
  when one of the three keys is missing.
\<close>

record ('d, 's) raw_values =
  raw_name :: "string option"
  raw_slug :: "string option"
  raw_http_scheme :: "HTTPSchemeEnum option"
  raw_bind_host :: "string option"
  raw_port :: "int option"
  raw_version :: "string option"
  raw_prefix :: "string option"
  raw_gzip_min_size :: "int option"
  raw_behind_proxy :: "bool option"
  raw_behind_cf_proxy :: "bool option"
  raw_dev :: "'d option"
  raw_security :: "'s option"
  raw_ssl_enabled :: "error + bool"
  raw_docs :: "DocsConfig option"
  raw_paths :: "PathsConfig option"

text \<open>
  The loop of \<^verbatim>\<open>_check_args\<close> over \<^verbatim>\<open>enumerate(sys.argv)\<close>, on the arguments still
  to visit: \<^verbatim>\<open>_i + 1 < len(sys.argv)\<close> says that an argument follows, and
  \<^verbatim>\<open>sys.argv[_i + 1]\<close> is that argument. The state is \<^verbatim>\<open>values\<close> and \<^verbatim>\<open>_has_host\<close>;
  \<^verbatim>\<open>int\<close> raising \<^verbatim>\<open>ValueError\<close> ends the loop.
\<close>

fun scan_args ::
  "string list \<Rightarrow> ('d, 's) raw_values \<Rightarrow> bool \<Rightarrow> error + (('d, 's) raw_values \<times> bool)" where
  "scan_args [] values has_host = Inr (values, has_host)"
| "scan_args (arg # rest) values has_host =
     (let values1 =
            (if startswith arg ''--ssl'' then values\<lparr>raw_http_scheme := Some https\<rparr> else values);
          values2 =
            (if startswith arg ''--host='' then
               values1\<lparr>raw_bind_host := Some (split CHR ''='' arg ! 1)\<rparr>
             else if arg = ''--host'' \<and> rest \<noteq> [] then values1\<lparr>raw_bind_host := Some (hd rest)\<rparr>
             else values1);
          has_host2 =
            (startswith arg ''--host='' \<or> (arg = ''--host'' \<and> rest \<noteq> []) \<or> has_host)
      in if startswith arg ''--port='' then
           (case py_int (split CHR ''='' arg ! 1) of
              None \<Rightarrow> Inl ValueError
            | Some p \<Rightarrow> scan_args rest (values2\<lparr>raw_port := Some p\<rparr>) has_host2)
         else if arg = ''--port'' \<and> rest \<noteq> [] then
           (case py_int (hd rest) of
              None \<Rightarrow> Inl ValueError
            | Some p \<Rightarrow> scan_args rest (values2\<lparr>raw_port := Some p\<rparr>) has_host2)
         else scan_args rest values2 has_host2)"

definition recognized :: "string \<Rightarrow> bool" where
  "recognized prog =
     (endswith prog ''uvicorn'' \<or> endswith prog ''fastapi'' \<or> endswith prog ''gunicorn'')"

text \<open>
  \<^verbatim>\<open>_check_args\<close> with \<^verbatim>\<open>sys.argv\<close> as its first argument. \<^verbatim>\<open>sys.argv[0]\<close> and
  \<^verbatim>\<open>sys.argv[1]\<close> raise \<^verbatim>\<open>IndexError\<close> on a vector that is too short.
\<close>

definition check_args ::
  "string list \<Rightarrow> ('d, 's) raw_values \<Rightarrow> error + ('d, 's) raw_values" where
  "check_args argv values =
     (case argv of
        [] \<Rightarrow> Inl IndexError
      | prog # args \<Rightarrow>
          if recognized prog then
            (case scan_args argv values False of
               Inl e \<Rightarrow> Inl e
             | Inr (values', has_host) \<Rightarrow>
                 if \<not> has_host then
                   if endswith prog ''fastapi'' then
                     (case args of
                        [] \<Rightarrow> Inl IndexError
                      | a # _ \<Rightarrow>
                          if a = ''run'' then Inr (values'\<lparr>raw_bind_host := Some ''0.0.0.0''\<rparr>)
                          else Inr (values'\<lparr>raw_bind_host := Some ''127.0.0.1''\<rparr>))
                   else Inr (values'\<lparr>raw_bind_host := Some ''127.0.0.1''\<rparr>)
                 else Inr values')
          else
            (case raw_ssl_enabled values of
               Inl e \<Rightarrow> Inl e
             | Inr b \<Rightarrow> if b then Inr (values\<lparr>raw_http_scheme := Some https\<rparr>) else Inr values))"

subsection \<open>Field constraints\<close>

text \<open>
  The characters pydantic's \<^verbatim>\<open>strip_whitespace\<close> removes (ASCII part).
\<close>

definition field_space :: "char \<Rightarrow> bool" where
  "field_space c = (let n = (of_char c :: nat) in (9 \<le> n \<and> n \<le> 13) \<or> n = 32)"

definition strip_whitespace :: "string \<Rightarrow> string" where
  "strip_whitespace s = rev (dropWhile field_space (rev (dropWhile field_space s)))"

text \<open>
  A required field \<^verbatim>\<open>constr(strip_whitespace=True) = Field(..., min_length=lo,
  max_length=hi)\<close>: the value is stripped, then its length is checked.
\<close>

definition constr :: "nat \<Rightarrow> nat \<Rightarrow> string option \<Rightarrow> error + string" where
  "constr lo hi raw =
     (case raw of
        None \<Rightarrow> Inl ValidationError
      | Some s \<Rightarrow>
          (let t = strip_whitespace s
           in if lo \<le> length t \<and> length t \<le> hi then Inr t else Inl ValidationError))"

text \<open>\<^verbatim>\<open>port: int = Field(..., ge=80, lt=65536)\<close>.\<close>

definition port_field :: "int option \<Rightarrow> error + int" where
  "port_field raw =
     (case raw of
        None \<Rightarrow> Inl ValidationError
      | Some p \<Rightarrow> if 80 \<le> p \<and> p < 65536 then Inr p else Inl ValidationError)"

text \<open>\<^verbatim>\<open>gzip_min_size: int = Field(..., ge=0, le=10_485_760)\<close>.\<close>

definition gzip_min_size_field :: "int option \<Rightarrow> error + int" where
  "gzip_min_size_field raw =
     (case raw of
        None \<Rightarrow> Inl ValidationError
      | Some g \<Rightarrow> if 0 \<le> g \<and> g \<le> 10485760 then Inr g else Inl ValidationError)"

text \<open>A required field with no constraint of its own.\<close>

definition required :: "'a option \<Rightarrow> error + 'a" where
  "required raw = (case raw of None \<Rightarrow> Inl ValidationError | Some x \<Rightarrow> Inr x)"

text \<open>
  A \<^verbatim>\<open>field_validator\<close> in its default mode runs after the field's own constraints
  have accepted the value, on the value they return. A \<^verbatim>\<open>ValueError\<close> it raises is
  recorded as a validation error; any other exception leaves the validation at once.
\<close>

definition after_validator :: "error + 'a \<Rightarrow> ('a \<Rightarrow> error + 'b) \<Rightarrow> error + 'b" where
  "after_validator r f =
     (case r of
        Inl e \<Rightarrow> Inl e
      | Inr x \<Rightarrow>
          (case f x of
             Inl ValueError \<Rightarrow> Inl ValidationError
           | Inl e \<Rightarrow> Inl e
           | Inr y \<Rightarrow> Inr y))"

text \<open>A field enters \<^verbatim>\<open>info.data\<close> only when it has been validated.\<close>

definition store :: "string \<Rightarrow> error + string \<Rightarrow> info_data \<Rightarrow> info_data" where
  "store k r data = (case r of Inl e \<Rightarrow> data | Inr x \<Rightarrow> data(k \<mapsto> x))"

text \<open>The exception, other than a recorded validation error, that a field raised.\<close>

definition raised :: "error + 'a \<Rightarrow> error option" where
  "raised r = (case r of Inl ValidationError \<Rightarrow> None | Inl e \<Rightarrow> Some e | Inr x \<Rightarrow> None)"

subsection \<open>The model\<close>

record ('d, 's) ApiConfig =
  name :: string
  slug :: string
  http_scheme :: HTTPSchemeEnum
  bind_host :: string
  port :: int
  version :: string
  prefix :: string
  gzip_min_size :: int
  behind_proxy :: bool
  behind_cf_proxy :: bool
  dev :: 'd
  security :: 's
  docs :: DocsConfig
  paths :: PathsConfig

text \<open>
  The fields in the order of their declaration, each with its constraints and then its
  validator. Validation goes on after a field has failed (the failed field is then
  missing from \<^verbatim>\<open>info.data\<close>) and ends in \<^verbatim>\<open>ValidationError\<close>; an exception other
  than \<^verbatim>\<open>ValueError\<close> raised by a validator ends it at that field.
\<close>

definition validate_fields :: "('d, 's) raw_values \<Rightarrow> error + ('d, 's) ApiConfig" where
  "validate_fields values =
     (let r_name = constr 2 128 (raw_name values);
          data1 = store ''name'' r_name Map.empty;
          r_slug = after_validator (constr 2 128 (raw_slug values)) (\<lambda>val. Inr (check_slug val data1));
          data2 = store ''slug'' r_slug data1;
          r_http_scheme = (case raw_http_scheme values of None \<Rightarrow> http | Some h \<Rightarrow> h);
          r_bind_host = constr 2 128 (raw_bind_host values);
          r_port = port_field (raw_port values);
          r_version = constr 1 16 (raw_version values);
          data3 = store ''version'' r_version data2;
          r_prefix = after_validator (constr 0 128 (raw_prefix values)) (\<lambda>val. check_prefix val data3);
          data4 = store ''prefix'' r_prefix data3;
          r_gzip = gzip_min_size_field (raw_gzip_min_size values);
          r_proxy = required (raw_behind_proxy values);
          r_cf_proxy = required (raw_behind_cf_proxy values);
          r_dev = required (raw_dev values);
          r_security = required (raw_security values);
          r_docs = after_validator (required (raw_docs values)) (\<lambda>val. check_docs val data4);
          r_paths = after_validator (required (raw_paths values)) (\<lambda>val. check_paths val data4)
      in case raised r_prefix of
           Some e \<Rightarrow> Inl e
         | None \<Rightarrow>
        (case raised r_docs of
           Some e \<Rightarrow> Inl e
         | None \<Rightarrow>
        (case raised r_paths of
           Some e \<Rightarrow> Inl e
         | None \<Rightarrow>
             if isl r_name \<or> isl r_slug \<or> isl r_bind_host \<or> isl r_port \<or> isl r_version
                \<or> isl r_prefix \<or> isl r_gzip \<or> isl r_proxy \<or> isl r_cf_proxy \<or> isl r_dev
                \<or> isl r_security \<or> isl r_docs \<or> isl r_paths
             then Inl ValidationError
             else Inr \<lparr>name = projr r_name, slug = projr r_slug, http_scheme = r_http_scheme,
                        bind_host = projr r_bind_host, port = projr r_port,
                        version = projr r_version, prefix = projr r_prefix,
                        gzip_min_size = projr r_gzip, behind_proxy = projr r_proxy,
                        behind_cf_proxy = projr r_cf_proxy, dev = projr r_dev,
                        security = projr r_security, docs = projr r_docs,
                        paths = projr r_paths\<rparr>)))"

text \<open>
  Building the model from the raw mapping: the \<^verbatim>\<open>mode="before"\<close> validator first (a
  \<^verbatim>\<open>ValueError\<close> it raises is reported as \<^verbatim>\<open>ValidationError\<close>), then the fields.
\<close>

definition ApiConfig_validate ::
  "string list \<Rightarrow> ('d, 's) raw_values \<Rightarrow> error + ('d, 's) ApiConfig" where
  "ApiConfig_validate argv values =
     (case check_args argv values of
        Inl ValueError \<Rightarrow> Inl ValidationError
      | Inl e \<Rightarrow> Inl e
      | Inr values' \<Rightarrow> validate_fields values')"

subsection \<open>Properties of the launch arguments, by position\<close>

text \<open>
  The vector holds a host flag at position \<open>i\<close>: \<^verbatim>\<open>--host=VALUE\<close>, or \<^verbatim>\<open>--host\<close>
  followed by a value.
\<close>

definition host_flag_at :: "string list \<Rightarrow> nat \<Rightarrow> bool" where
  "host_flag_at argv i =
     (startswith (argv ! i) ''--host='' \<or> (argv ! i = ''--host'' \<and> i + 1 < length argv))"

definition has_host_flag :: "string list \<Rightarrow> bool" where
  "has_host_flag argv = list_ex (host_flag_at argv) [0..<length argv]"

text \<open>Some argument begins with \<^verbatim>\<open>--ssl\<close>.\<close>

definition has_ssl_flag :: "string list \<Rightarrow> bool" where
  "has_ssl_flag argv = list_ex (\<lambda>arg. startswith arg ''--ssl'') argv"

text \<open>The value a port flag at position \<open>i\<close> carries, if there is a port flag there.\<close>

definition port_value_at :: "string list \<Rightarrow> nat \<Rightarrow> string option" where
  "port_value_at argv i =
     (if startswith (argv ! i) ''--port='' then Some (split CHR ''='' (argv ! i) ! 1)
      else if argv ! i = ''--port'' \<and> i + 1 < length argv then Some (argv ! (i + 1))
      else None)"

text \<open>Every port flag of the vector carries a decimal literal.\<close>

definition ports_parse :: "string list \<Rightarrow> bool" where
  "ports_parse argv =
     list_all (\<lambda>i. case port_value_at argv i of None \<Rightarrow> True | Some t \<Rightarrow> py_int t \<noteq> None)
       [0..<length argv]"

subsection \<open>What the scan leaves in the mapping\<close>

text \<open>
  The host and the port the loop leaves in \<^verbatim>\<open>values\<close>, given what they held before:
  each flag overwrites, so the last one stands.
\<close>

fun last_host :: "string list \<Rightarrow> string option \<Rightarrow> string option" where
  "last_host [] d = d"
| "last_host (arg # rest) d =
     last_host rest
       (if startswith arg ''--host='' then Some (split CHR ''='' arg ! 1)
        else if arg = ''--host'' \<and> rest \<noteq> [] then Some (hd rest)
        else d)"

fun last_port :: "string list \<Rightarrow> int option \<Rightarrow> int option" where
  "last_port [] d = d"
| "last_port (arg # rest) d =
     last_port rest
       (if startswith arg ''--port='' then py_int (split CHR ''='' arg ! 1)
        else if arg = ''--port'' \<and> rest \<noteq> [] then py_int (hd rest)
        else d)"

text \<open>The assignments one argument makes to the scheme and the host.\<close>

definition arg_update :: "string \<Rightarrow> string list \<Rightarrow> ('d, 's) raw_values \<Rightarrow> ('d, 's) raw_values" where
  "arg_update arg rest v =
     (let v1 = (if startswith arg ''--ssl'' then v\<lparr>raw_http_scheme := Some https\<rparr> else v)
      in if startswith arg ''--host='' then v1\<lparr>raw_bind_host := Some (split CHR ''='' arg ! 1)\<rparr>
         else if arg = ''--host'' \<and> rest \<noteq> [] then v1\<lparr>raw_bind_host := Some (hd rest)\<rparr>
         else v1)"

text \<open>The mapping after the whole loop, when every port flag carries a number.\<close>

definition scanned :: "string list \<Rightarrow> ('d, 's) raw_values \<Rightarrow> ('d, 's) raw_values" where
  "scanned xs v =
     v\<lparr>raw_http_scheme := (if has_ssl_flag xs then Some https else raw_http_scheme v),
       raw_bind_host := last_host xs (raw_bind_host v),
       raw_port := last_port xs (raw_port v)\<rparr>"

subsection \<open>Templates made of plain text and one token\<close>

text \<open>
  A template as a list of segments: literal text, or the replacement field of the one
  keyword \<open>k\<close> the call passes. \<open>render\<close> is the template's text, \<open>fill\<close> the text with
  each field replaced by the value \<open>v\<close>. Literals are plain when they hold no brace; a
  keyword is plain when \<^verbatim>\<open>format\<close> reads it as a name and nothing else.
\<close>

datatype segment = Lit string | Tok

fun render :: "string \<Rightarrow> segment list \<Rightarrow> string" where
  "render k [] = []"
| "render k (Lit t # segs) = t @ render k segs"
| "render k (Tok # segs) = CHR ''{'' # k @ CHR ''}'' # render k segs"

fun fill :: "string \<Rightarrow> segment list \<Rightarrow> string" where
  "fill v [] = []"
| "fill v (Lit t # segs) = t @ fill v segs"
| "fill v (Tok # segs) = v @ fill v segs"

fun plain_literals :: "segment list \<Rightarrow> bool" where
  "plain_literals [] = True"
| "plain_literals (Lit t # segs) =
     (CHR ''{'' \<notin> set t \<and> CHR ''}'' \<notin> set t \<and> plain_literals segs)"
| "plain_literals (Tok # segs) = plain_literals segs"

definition plain_name :: "string \<Rightarrow> bool" where
  "plain_name k =
     (\<not> list_all is_digit k \<and>
      list_all (\<lambda>c. c \<noteq> CHR ''{'' \<and> c \<noteq> CHR ''}'' \<and> c \<noteq> CHR ''['' \<and> c \<noteq> CHR ''!''
                  \<and> c \<noteq> CHR '':'' \<and> c \<noteq> CHR ''.'') k)"


subsection \<open>A sample configuration\<close>

definition example_values :: "(unit, unit) raw_values" where
  "example_values =
     \<lparr>raw_name = Some ''My Cool API'', raw_slug = Some ''my-api'', raw_http_scheme = None,
      raw_bind_host = Some ''0.0.0.0'', raw_port = Some 8000, raw_version = Some ''v2'',
      raw_prefix = Some ''/api/{api_version}'', raw_gzip_min_size = Some 512,
      raw_behind_proxy = Some False, raw_behind_cf_proxy = Some False, raw_dev = Some (),
      raw_security = Some (), raw_ssl_enabled = Inr True,
      raw_docs = Some \<lparr>enabled = True, openapi_url = Some ''{api_prefix}/openapi.json'',
        docs_url = Some ''{api_prefix}/docs'', redoc_url = None,
        swagger_ui_oauth2_redirect_url = None\<rparr>,
      raw_paths = Some \<lparr>tmp_dir = ''/var/tmp/{api_slug}'', uploads_dir = ''{tmp_dir}/uploads'',
        data_dir = ''/var/lib/data''\<rparr>\<rparr>"

section \<open>Verification\<close>

subsection \<open>What a successful validation says about the fields\<close>

lemma not_isl_projr: "\<not> isl r \<Longrightarrow> r = Inr (projr r)"
  by (cases r) simp_all

lemma after_validator_Inr:
  "after_validator r f = Inr y \<Longrightarrow> \<exists>x. r = Inr x \<and> f x = Inr y"
  by (auto simp: after_validator_def split: sum.splits error.splits)

lemma validate_fields_Inr:
  assumes "validate_fields values = Inr cfg"
  shows "constr 2 128 (raw_name values) = Inr (name cfg)"
    and "\<exists>s. constr 2 128 (raw_slug values) = Inr s
           \<and> slug cfg = check_slug s [''name'' \<mapsto> name cfg]"
    and "http_scheme cfg = (case raw_http_scheme values of None \<Rightarrow> http | Some h \<Rightarrow> h)"
    and "constr 2 128 (raw_bind_host values) = Inr (bind_host cfg)"
    and "port_field (raw_port values) = Inr (port cfg)"
    and "constr 1 16 (raw_version values) = Inr (version cfg)"
proof -
  let ?r_name = "constr 2 128 (raw_name values)"
  let ?d1 = "store ''name'' ?r_name Map.empty"
  let ?r_slug =
    "after_validator (constr 2 128 (raw_slug values)) (\<lambda>val. Inr (check_slug val ?d1))"
  from assms have ok:
    "\<not> isl ?r_name" "\<not> isl ?r_slug" "\<not> isl (constr 2 128 (raw_bind_host values))"
    "\<not> isl (port_field (raw_port values))" "\<not> isl (constr 1 16 (raw_version values))"
    and eq: "name cfg = projr ?r_name" "slug cfg = projr ?r_slug"
      "http_scheme cfg = (case raw_http_scheme values of None \<Rightarrow> http | Some h \<Rightarrow> h)"
      "bind_host cfg = projr (constr 2 128 (raw_bind_host values))"
      "port cfg = projr (port_field (raw_port values))"
      "version cfg = projr (constr 1 16 (raw_version values))"
    unfolding validate_fields_def Let_def
    by (auto split: option.splits if_splits)
  show n: "constr 2 128 (raw_name values) = Inr (name cfg)"
    using ok(1) eq(1) not_isl_projr by metis
  have "?r_slug = Inr (slug cfg)"
    using ok(2) eq(2) not_isl_projr by metis
  then show "\<exists>s. constr 2 128 (raw_slug values) = Inr s
      \<and> slug cfg = check_slug s [''name'' \<mapsto> name cfg]"
    using n by (auto dest!: after_validator_Inr simp: store_def)
  show "http_scheme cfg = (case raw_http_scheme values of None \<Rightarrow> http | Some h \<Rightarrow> h)"
    by (rule eq(3))
  show "constr 2 128 (raw_bind_host values) = Inr (bind_host cfg)"
    using ok(3) eq(4) not_isl_projr by metis
  show "port_field (raw_port values) = Inr (port cfg)"
    using ok(4) eq(5) not_isl_projr by metis
  show "constr 1 16 (raw_version values) = Inr (version cfg)"
    using ok(5) eq(6) not_isl_projr by metis
qed

lemma ApiConfig_validate_Inr:
  "ApiConfig_validate argv values = Inr cfg \<Longrightarrow>
     \<exists>values'. check_args argv values = Inr values' \<and> validate_fields values' = Inr cfg"
  by (auto simp: ApiConfig_validate_def split: sum.splits error.splits)

subsection \<open>The launch-argument scan\<close>

lemma list_ex_upt_Suc:
  "list_ex P [0..<Suc n] = (P 0 \<or> list_ex (\<lambda>i. P (Suc i)) [0..<n])"
  by (auto simp: list_ex_iff less_Suc_eq_0_disj simp del: upt_Suc)

lemma list_all_upt_Suc:
  "list_all P [0..<Suc n] = (P 0 \<and> list_all (\<lambda>i. P (Suc i)) [0..<n])"
  by (auto simp: list_all_iff less_Suc_eq_0_disj simp del: upt_Suc)

lemma host_flag_at_Suc: "host_flag_at (arg # rest) (Suc i) = host_flag_at rest i"
  by (simp add: host_flag_at_def)

lemma has_host_flag_Nil: "has_host_flag [] = False"
  by (simp add: has_host_flag_def)

lemma has_host_flag_Cons:
  "has_host_flag (arg # rest) =
     (startswith arg ''--host='' \<or> (arg = ''--host'' \<and> rest \<noteq> []) \<or> has_host_flag rest)"
proof -
  have "has_host_flag (arg # rest) =
      (host_flag_at (arg # rest) 0
       \<or> list_ex (\<lambda>i. host_flag_at (arg # rest) (Suc i)) [0..<length rest])"
    by (simp only: has_host_flag_def length_Cons list_ex_upt_Suc)
  moreover have "(\<lambda>i. host_flag_at (arg # rest) (Suc i)) = host_flag_at rest"
    by (simp add: host_flag_at_Suc fun_eq_iff)
  moreover have "host_flag_at (arg # rest) 0 =
      (startswith arg ''--host='' \<or> (arg = ''--host'' \<and> rest \<noteq> []))"
    by (simp add: host_flag_at_def)
  ultimately show ?thesis
    by (simp add: has_host_flag_def)
qed

lemma port_value_at_0:
  "port_value_at (arg # rest) 0 =
     (if startswith arg ''--port='' then Some (split CHR ''='' arg ! 1)
      else if arg = ''--port'' \<and> rest \<noteq> [] then Some (hd rest)
      else None)"
  by (cases rest) (simp_all add: port_value_at_def)

lemma port_value_at_Suc: "port_value_at (arg # rest) (Suc i) = port_value_at rest i"
  by (simp add: port_value_at_def)

lemma ports_parse_Nil: "ports_parse [] = True"
  by (simp add: ports_parse_def)

lemma ports_parse_Cons:
  "ports_parse (arg # rest) =
     ((case port_value_at (arg # rest) 0 of None \<Rightarrow> True | Some t \<Rightarrow> py_int t \<noteq> None)
      \<and> ports_parse rest)"
proof -
  let ?ok = "\<lambda>xs i. case port_value_at xs i of None \<Rightarrow> True | Some t \<Rightarrow> py_int t \<noteq> None"
  have "ports_parse (arg # rest) =
      (?ok (arg # rest) 0 \<and> list_all (\<lambda>i. ?ok (arg # rest) (Suc i)) [0..<length rest])"
    by (simp only: ports_parse_def length_Cons list_all_upt_Suc)
  moreover have "(\<lambda>i. ?ok (arg # rest) (Suc i)) = ?ok rest"
    by (simp add: port_value_at_Suc fun_eq_iff)
  ultimately show ?thesis
    by (simp add: ports_parse_def)
qed

lemma has_ssl_flag_Cons:
  "has_ssl_flag (arg # rest) = (startswith arg ''--ssl'' \<or> has_ssl_flag rest)"
  by (simp add: has_ssl_flag_def)


lemma host_flag_at_0:
  "host_flag_at (arg # rest) 0 = (startswith arg ''--host='' \<or> (arg = ''--host'' \<and> rest \<noteq> []))"
  by (simp add: host_flag_at_def)

lemma scan_args_Cons_None:
  "port_value_at (arg # rest) 0 = None \<Longrightarrow>
   scan_args (arg # rest) v h =
     scan_args rest (arg_update arg rest v) (host_flag_at (arg # rest) 0 \<or> h)"
  by (auto simp: port_value_at_0 arg_update_def host_flag_at_0 Let_def split: if_splits)

lemma scan_args_Cons_Some:
  "port_value_at (arg # rest) 0 = Some t \<Longrightarrow> py_int t = Some p \<Longrightarrow>
   scan_args (arg # rest) v h =
     scan_args rest ((arg_update arg rest v)\<lparr>raw_port := Some p\<rparr>)
       (host_flag_at (arg # rest) 0 \<or> h)"
  by (auto simp: port_value_at_0 arg_update_def host_flag_at_0 Let_def split: if_splits)

lemma scan_args_Cons_fail:
  "port_value_at (arg # rest) 0 = Some t \<Longrightarrow> py_int t = None \<Longrightarrow>
   scan_args (arg # rest) v h = Inl ValueError"
  by (auto simp: port_value_at_0 Let_def split: if_splits)

lemma scan_args_fails:
  "\<not> ports_parse xs \<Longrightarrow> scan_args xs v h = Inl ValueError"
proof (induction xs arbitrary: v h)
  case Nil
  then show ?case by (simp add: ports_parse_Nil)
next
  case (Cons arg rest)
  show ?case
  proof (cases "port_value_at (arg # rest) 0")
    case None
    with Cons.prems have "\<not> ports_parse rest"
      by (simp add: ports_parse_Cons)
    then show ?thesis
      unfolding scan_args_Cons_None [OF None] by (rule Cons.IH)
  next
    case (Some t)
    note pv = this
    show ?thesis
    proof (cases "py_int t")
      case None
      then show ?thesis
        by (rule scan_args_Cons_fail [OF pv])
    next
      case (Some p)
      with pv Cons.prems have "\<not> ports_parse rest"
        by (simp add: ports_parse_Cons)
      then show ?thesis
        unfolding scan_args_Cons_Some [OF pv Some] by (rule Cons.IH)
    qed
  qed
qed


lemma last_port_0_None:
  "port_value_at (arg # rest) 0 = None \<Longrightarrow> last_port (arg # rest) d = last_port rest d"
  by (auto simp: port_value_at_0 split: if_splits)

lemma last_port_0_Some:
  "port_value_at (arg # rest) 0 = Some t \<Longrightarrow> last_port (arg # rest) d = last_port rest (py_int t)"
  by (auto simp: port_value_at_0 split: if_splits)

lemma arg_update_fields:
  "raw_http_scheme (arg_update arg rest v) =
     (if startswith arg ''--ssl'' then Some https else raw_http_scheme v)"
  "raw_bind_host (arg_update arg rest v) =
     (if startswith arg ''--host='' then Some (split CHR ''='' arg ! 1)
      else if arg = ''--host'' \<and> rest \<noteq> [] then Some (hd rest)
      else raw_bind_host v)"
  "raw_port (arg_update arg rest v) = raw_port v"
  by (simp_all add: arg_update_def Let_def)

lemma arg_update_eq:
  "arg_update arg rest v =
     v\<lparr>raw_http_scheme := raw_http_scheme (arg_update arg rest v),
       raw_bind_host := raw_bind_host (arg_update arg rest v)\<rparr>"
  by (simp add: arg_update_def Let_def)

lemma scan_args_result:
  "ports_parse xs \<Longrightarrow>
   scan_args xs v h =
     Inr (v\<lparr>raw_http_scheme := (if has_ssl_flag xs then Some https else raw_http_scheme v),
            raw_bind_host := last_host xs (raw_bind_host v),
            raw_port := last_port xs (raw_port v)\<rparr>,
          has_host_flag xs \<or> h)"
proof (induction xs arbitrary: v h)
  case Nil
  then show ?case by (simp add: has_host_flag_Nil has_ssl_flag_def)
next
  case (Cons arg rest)
  from Cons.prems have pr: "ports_parse rest"
    by (simp add: ports_parse_Cons)
  note IH = Cons.IH [OF pr]
  let ?u = "arg_update arg rest v"
  have host: "last_host (arg # rest) (raw_bind_host v) = last_host rest (raw_bind_host ?u)"
    by (simp add: arg_update_fields)
  have ssl: "(if has_ssl_flag (arg # rest) then Some https else raw_http_scheme v) =
      (if has_ssl_flag rest then Some https else raw_http_scheme ?u)"
    by (simp add: arg_update_fields has_ssl_flag_Cons)
  have flag: "(has_host_flag (arg # rest) \<or> h) = (has_host_flag rest \<or> host_flag_at (arg # rest) 0 \<or> h)"
    by (auto simp: has_host_flag_Cons host_flag_at_0)
  show ?case
  proof (cases "port_value_at (arg # rest) 0")
    case None
    show ?thesis
      unfolding scan_args_Cons_None [OF None] IH host ssl flag last_port_0_None [OF None]
      by (subst (3) arg_update_eq) (simp add: arg_update_fields)
  next
    case (Some t)
    with Cons.prems obtain p where p: "py_int t = Some p"
      by (auto simp: ports_parse_Cons)
    show ?thesis
      unfolding scan_args_Cons_Some [OF Some p] IH host ssl flag last_port_0_Some [OF Some] p
      by (subst (3) arg_update_eq) (simp add: arg_update_fields)
  qed
qed

lemma last_host_idem: "last_host xs (last_host xs d) = last_host xs d"
proof -
  have "(\<forall>d d'. last_host xs d = last_host xs d') \<or> (\<forall>d. last_host xs d = d)"
    by (induction xs) auto
  then show ?thesis by metis
qed

lemma last_host_no_flag: "\<not> has_host_flag xs \<Longrightarrow> last_host xs d = d"
  by (induction xs arbitrary: d) (auto simp: has_host_flag_Cons)

lemma last_port_idem: "last_port xs (last_port xs d) = last_port xs d"
proof -
  have "(\<forall>d d'. last_port xs d = last_port xs d') \<or> (\<forall>d. last_port xs d = d)"
    by (induction xs) auto
  then show ?thesis by metis
qed

lemma scan_args_Inr_ports: "scan_args xs v h = Inr r \<Longrightarrow> ports_parse xs"
  using scan_args_fails [of xs v h] by auto

lemma scanned_idem: "scanned xs (scanned xs v) = scanned xs v"
  by (simp add: scanned_def last_host_idem last_port_idem)

lemma scanned_default:
  "\<not> has_host_flag xs \<Longrightarrow>
   scanned xs ((scanned xs v)\<lparr>raw_bind_host := b\<rparr>) = (scanned xs v)\<lparr>raw_bind_host := b\<rparr>"
  by (simp add: scanned_def last_host_no_flag last_port_idem)

lemma check_args_recognized:
  assumes "recognized prog"
  shows "check_args (prog # args) v =
     (if \<not> ports_parse (prog # args) then Inl ValueError
      else if has_host_flag (prog # args) then Inr (scanned (prog # args) v)
      else if endswith prog ''fastapi'' \<and> args = [] then Inl IndexError
      else Inr ((scanned (prog # args) v)\<lparr>raw_bind_host :=
             Some (if endswith prog ''fastapi'' \<and> take 1 args = [''run'']
                   then ''0.0.0.0'' else ''127.0.0.1'')\<rparr>))"
proof (cases "ports_parse (prog # args)")
  case False
  then show ?thesis
    using assms by (simp add: check_args_def scan_args_fails del: scan_args.simps)
next
  case True
  have "scan_args (prog # args) v False = Inr (scanned (prog # args) v, has_host_flag (prog # args))"
    by (simp only: scan_args_result [OF True] scanned_def simp_thms)
  then show ?thesis
    using assms True
    by (simp add: check_args_def take_Suc split: list.splits del: scan_args.simps)
qed

lemma check_args_unrecognized:
  assumes "\<not> recognized prog"
  shows "check_args (prog # args) v =
     (case raw_ssl_enabled v of
        Inl e \<Rightarrow> Inl e
      | Inr b \<Rightarrow> if b then Inr (v\<lparr>raw_http_scheme := Some https\<rparr>) else Inr v)"
  using assms by (simp add: check_args_def)

lemma check_args_idem:
  assumes "check_args argv v = Inr v'"
  shows "check_args argv v' = Inr v'"
proof (cases argv)
  case Nil
  with assms show ?thesis by (simp add: check_args_def)
next
  case (Cons prog args)
  show ?thesis
  proof (cases "recognized prog")
    case True
    let ?xs = "prog # args"
    show ?thesis
    proof (cases "has_host_flag ?xs")
      case True
      with assms \<open>recognized prog\<close> show ?thesis
        unfolding Cons check_args_recognized [OF \<open>recognized prog\<close>]
        by (auto simp: scanned_idem split: if_splits)
    next
      case False
      with assms \<open>recognized prog\<close> show ?thesis
        unfolding Cons check_args_recognized [OF \<open>recognized prog\<close>]
        by (auto simp: scanned_default [OF False] split: if_splits)
    qed
  next
    case False
    from assms show ?thesis
      unfolding Cons check_args_unrecognized [OF False]
      by (auto split: sum.splits if_splits)
  qed
qed

lemma scanned_fields:
  "raw_http_scheme (scanned xs v) = (if has_ssl_flag xs then Some https else raw_http_scheme v)"
  "raw_bind_host (scanned xs v) = last_host xs (raw_bind_host v)"
  "raw_port (scanned xs v) = last_port xs (raw_port v)"
  by (simp_all add: scanned_def)



subsection \<open>The port bounds\<close>

text \<open>
  C2, as the code has it. The declaration is \<^verbatim>\<open>Field(..., ge=80, lt=65536)\<close>: a raw
  integer is accepted exactly when it lies in the closed-open interval from 80 to 65536,
  so 79 and 65536 are rejected while 8080 and 65535 are accepted; and the port of every
  model that validation returns lies in that interval, whether it came from the raw
  mapping or from a launch argument.
\<close>

theorem port_field_bounds:
  "(port_field (Some p) = Inr p) = (80 \<le> p \<and> p < 65536)
   \<and> (port_field (Some p) = Inl ValidationError) = (\<not> (80 \<le> p \<and> p < 65536))
   \<and> port_field (Some 79) = Inl ValidationError
   \<and> port_field (Some 65535) = Inr 65535
   \<and> port_field (Some 65536) = Inl ValidationError
   \<and> port_field (Some 8080) = Inr 8080
   \<and> (\<forall>argv values cfg. ApiConfig_validate argv (values :: ('d, 's) raw_values) = Inr cfg
        \<longrightarrow> 80 \<le> port cfg \<and> port cfg < 65536)"
proof -
  have "80 \<le> port cfg \<and> port cfg < 65536"
    if "ApiConfig_validate argv vals = Inr cfg"
    for argv and vals :: "('d, 's) raw_values" and cfg
  proof -
    from that obtain vals' where "validate_fields vals' = Inr cfg"
      by (auto dest: ApiConfig_validate_Inr)
    then have "port_field (raw_port vals') = Inr (port cfg)"
      by (rule validate_fields_Inr(5))
    then show ?thesis
      by (auto simp: port_field_def split: option.splits if_splits)
  qed
  then show ?thesis
    by (auto simp: port_field_def)
qed

theorem port_field_bounds_witness:
  "port_field (Some 65535) = Inr 65535
   \<and> map_sum id port (ApiConfig_validate [''python''] (example_values\<lparr>raw_port := Some 65535\<rparr>))
       = Inr 65535"
proof -
  have "map_sum id port (ApiConfig_validate [''python''] (example_values\<lparr>raw_port := Some 65535\<rparr>))
      = Inr 65535"
    by code_simp
  moreover have "port_field (Some 65535) = Inr 65535"
    using port_field_bounds [of 65535] by blast
  ultimately show ?thesis
    by (rule conjI [rotated])
qed

text \<open>
  The claim as written puts the upper bound at 65535 and has port 65535 fail; the
  field accepts it.
\<close>

theorem port_65535_accepted:
  "port_field (Some 65535) = Inr 65535 \<and> \<not> ((80 :: int) \<le> 65535 \<and> (65535 :: int) < 65535)"
  by (simp add: port_field_def)

subsection \<open>The program name alone\<close>

text \<open>
  C5 at its failing input, and beyond it. When the vector holds nothing but a program
  name ending with \<^verbatim>\<open>fastapi\<close>, no host flag is found, and the test
  \<^verbatim>\<open>sys.argv[1] == "run"\<close> reads past the end of the vector: the step raises
  \<^verbatim>\<open>IndexError\<close>, whatever the raw mapping holds. So for \<^verbatim>\<open>["fastapi"]\<close>.
\<close>

theorem fastapi_alone_raises:
  "(endswith prog ''fastapi'' \<and> \<not> has_host_flag [prog] \<and> ports_parse [prog]
      \<longrightarrow> check_args [prog] values = Inl IndexError)
   \<and> check_args [''fastapi''] values = Inl IndexError"
proof -
  have "check_args [prog] values = Inl IndexError"
    if "endswith prog ''fastapi''" "\<not> has_host_flag [prog]" "ports_parse [prog]"
  proof -
    from that(1) have "recognized prog"
      by (simp add: recognized_def)
    from check_args_recognized [OF this, of "[]" "values"] that show ?thesis
      by simp
  qed
  moreover have "check_args [''fastapi''] values = Inl IndexError"
    by (simp add: check_args_def recognized_def endswith_def startswith_def Let_def)
  ultimately show ?thesis by blast
qed

theorem fastapi_alone_raises_witness:
  "check_args [''/usr/local/bin/fastapi''] example_values = Inl IndexError
   \<and> check_args [''my_fastapi''] example_values = Inl IndexError"
proof -
  have "endswith ''/usr/local/bin/fastapi'' ''fastapi''"
    "\<not> has_host_flag [''/usr/local/bin/fastapi'']" "ports_parse [''/usr/local/bin/fastapi'']"
    "endswith ''my_fastapi'' ''fastapi''"
    "\<not> has_host_flag [''my_fastapi'']" "ports_parse [''my_fastapi'']"
    by code_simp+
  with fastapi_alone_raises [of "''/usr/local/bin/fastapi''" example_values]
    fastapi_alone_raises [of "''my_fastapi''" example_values]
  show ?thesis by blast
qed

subsection \<open>The default bind host\<close>




subsection \<open>The scheme and TLS\<close>

text \<open>
  C1, as the code has it. In every validated model the scheme is \<^verbatim>\<open>https\<close> when the
  launcher is recognized and some launch argument begins with \<^verbatim>\<open>--ssl\<close>, and when
  the launcher is not recognized and the security settings report TLS enabled. Under a
  recognized launcher with no such argument the scheme is the one the raw mapping
  declares (\<^verbatim>\<open>http\<close> when it declares none), whatever the security settings say: the
  security test is the \<^verbatim>\<open>elif\<close> branch of the launcher test.
\<close>

theorem https_triggers:
  assumes "ApiConfig_validate (prog # args) values = Inr cfg"
  shows "(recognized prog \<and> has_ssl_flag (prog # args) \<longrightarrow> http_scheme cfg = https)
       \<and> (\<not> recognized prog \<and> raw_ssl_enabled values = Inr True \<longrightarrow> http_scheme cfg = https)
       \<and> (recognized prog \<and> \<not> has_ssl_flag (prog # args) \<longrightarrow>
            http_scheme cfg = (case raw_http_scheme values of None \<Rightarrow> http | Some h \<Rightarrow> h))"
proof -
  from assms obtain values' where c: "check_args (prog # args) values = Inr values'"
    and v: "validate_fields values' = Inr cfg"
    by (auto dest: ApiConfig_validate_Inr)
  note s = validate_fields_Inr(3) [OF v]
  show ?thesis
  proof (cases "recognized prog")
    case True
    from c have "raw_http_scheme values' =
        (if has_ssl_flag (prog # args) then Some https else raw_http_scheme values)"
      unfolding check_args_recognized [OF True]
      by (auto simp: scanned_fields split: if_splits)
    with s True show ?thesis by simp
  next
    case False
    from c have "raw_ssl_enabled values = Inr True \<longrightarrow> raw_http_scheme values' = Some https"
      unfolding check_args_unrecognized [OF False]
      by (auto split: sum.splits if_splits)
    with s False show ?thesis by simp
  qed
qed

theorem https_triggers_witness:
  "(\<exists>cfg. ApiConfig_validate [''uvicorn'', ''--ssl-keyfile'', ''key.pem''] example_values = Inr cfg
      \<and> http_scheme cfg = https)
   \<and> (\<exists>cfg. ApiConfig_validate [''python''] example_values = Inr cfg \<and> http_scheme cfg = https)"
proof -
  have "\<not> isl (ApiConfig_validate [''uvicorn'', ''--ssl-keyfile'', ''key.pem''] example_values)"
    by code_simp
  then obtain cfg1 where
    1: "ApiConfig_validate [''uvicorn'', ''--ssl-keyfile'', ''key.pem''] example_values = Inr cfg1"
    by (cases "ApiConfig_validate [''uvicorn'', ''--ssl-keyfile'', ''key.pem''] example_values") auto
  have "recognized ''uvicorn''" "has_ssl_flag [''uvicorn'', ''--ssl-keyfile'', ''key.pem'']"
    by code_simp+
  with https_triggers [OF 1] have s1: "http_scheme cfg1 = https" by blast
  have "\<not> isl (ApiConfig_validate [''python''] example_values)"
    by code_simp
  then obtain cfg2 where 2: "ApiConfig_validate [''python''] example_values = Inr cfg2"
    by (cases "ApiConfig_validate [''python''] example_values") auto
  have "\<not> recognized ''python''" "raw_ssl_enabled example_values = Inr True"
    by code_simp+
  with https_triggers [OF 2] have s2: "http_scheme cfg2 = https" by blast
  from 1 s1 2 s2 show ?thesis by blast
qed

text \<open>
  The claim as written has the scheme \<^verbatim>\<open>https\<close> under a recognized launcher with
  security TLS enabled and no \<^verbatim>\<open>--ssl\<close> argument; the sample configuration, which
  enables TLS, validates under \<^verbatim>\<open>uvicorn\<close> with the scheme \<^verbatim>\<open>http\<close>.
\<close>

theorem security_tls_ignored_under_launcher:
  "map_sum id http_scheme (ApiConfig_validate [''uvicorn''] example_values) = Inr http
   \<and> raw_ssl_enabled example_values = Inr True
   \<and> recognized ''uvicorn''"
  by code_simp

subsection \<open>An unrecognized launcher\<close>

text \<open>
  C6, as the code has it. When the program is none of the three launchers, the scheme
  of the validated model is \<^verbatim>\<open>https\<close> exactly when the security settings report TLS
  enabled or the raw mapping itself declares \<^verbatim>\<open>https\<close>; \<^verbatim>\<open>bind_host\<close> is the raw
  value (stripped by its field) and \<^verbatim>\<open>port\<close> is the raw value, whatever the launch
  arguments hold.
\<close>

theorem unrecognized_launcher:
  assumes "\<not> recognized prog" and "ApiConfig_validate (prog # args) values = Inr cfg"
  shows "(http_scheme cfg = https) =
           (raw_ssl_enabled values = Inr True \<or> raw_http_scheme values = Some https)
       \<and> (\<exists>h. raw_bind_host values = Some h \<and> bind_host cfg = strip_whitespace h)
       \<and> raw_port values = Some (port cfg)"
proof -
  from assms(2) obtain values' where c: "check_args (prog # args) values = Inr values'"
    and v: "validate_fields values' = Inr cfg"
    by (auto dest: ApiConfig_validate_Inr)
  from c obtain b where b: "raw_ssl_enabled values = Inr b"
    and v': "values' = (if b then values\<lparr>raw_http_scheme := Some https\<rparr> else values)"
    unfolding check_args_unrecognized [OF assms(1)]
    by (auto split: sum.splits if_splits)
  have "http_scheme cfg = (case raw_http_scheme values' of None \<Rightarrow> http | Some h \<Rightarrow> h)"
    by (rule validate_fields_Inr(3) [OF v])
  then have 1: "(http_scheme cfg = https) =
      (raw_ssl_enabled values = Inr True \<or> raw_http_scheme values = Some https)"
    using b v' by (cases b) (auto split: option.splits)
  have "constr 2 128 (raw_bind_host values') = Inr (bind_host cfg)"
    by (rule validate_fields_Inr(4) [OF v])
  then have 2: "\<exists>h. raw_bind_host values = Some h \<and> bind_host cfg = strip_whitespace h"
    using v' by (cases b) (auto simp: constr_def Let_def split: option.splits if_splits)
  have "port_field (raw_port values') = Inr (port cfg)"
    by (rule validate_fields_Inr(5) [OF v])
  then have 3: "raw_port values = Some (port cfg)"
    using v' by (cases b) (auto simp: port_field_def split: option.splits if_splits)
  from 1 2 3 show ?thesis by blast
qed

theorem unrecognized_launcher_witness:
  "\<exists>cfg. ApiConfig_validate [''python'', ''--port'', ''9000''] example_values = Inr cfg
     \<and> http_scheme cfg = https \<and> bind_host cfg = ''0.0.0.0'' \<and> port cfg = 8000"
proof -
  have "\<not> isl (ApiConfig_validate [''python'', ''--port'', ''9000''] example_values)"
    by code_simp
  then obtain cfg where
    1: "ApiConfig_validate [''python'', ''--port'', ''9000''] example_values = Inr cfg"
    by (cases "ApiConfig_validate [''python'', ''--port'', ''9000''] example_values") auto
  have n: "\<not> recognized ''python''"
    by code_simp
  have e: "raw_ssl_enabled example_values = Inr True" "raw_port example_values = Some 8000"
    "raw_bind_host example_values = Some ''0.0.0.0''" "strip_whitespace ''0.0.0.0'' = ''0.0.0.0''"
    by code_simp+
  from unrecognized_launcher [OF n 1] e
  have "http_scheme cfg = https \<and> bind_host cfg = ''0.0.0.0'' \<and> port cfg = 8000"
    by auto
  with 1 show ?thesis by blast
qed

text \<open>
  The claim as written makes TLS the only way to \<^verbatim>\<open>https\<close>; a raw mapping that
  declares \<^verbatim>\<open>https\<close> keeps it with TLS disabled.
\<close>

theorem explicit_https_kept:
  "map_sum id http_scheme
     (ApiConfig_validate [''python'']
        (example_values\<lparr>raw_http_scheme := Some https, raw_ssl_enabled := Inr False\<rparr>)) = Inr https
   \<and> \<not> recognized ''python''"
  by code_simp

subsection \<open>Formatting a template\<close>

lemma str_format_literal:
  "CHR ''{'' \<notin> set t \<Longrightarrow> CHR ''}'' \<notin> set t \<Longrightarrow>
   str_format kw (t @ rest) =
     (case str_format kw rest of Inl e \<Rightarrow> Inl e | Inr out \<Rightarrow> Inr (t @ out))"
  by (induction t) (auto split: sum.splits)

lemma parse_field_name:
  "list_all (\<lambda>c. c \<noteq> CHR ''{'' \<and> c \<noteq> CHR ''}'' \<and> c \<noteq> CHR ''['' \<and> c \<noteq> CHR ''!''
                  \<and> c \<noteq> CHR '':'' \<and> c \<noteq> CHR ''.'') k \<Longrightarrow>
   parse_field (k @ CHR ''}'' # rest) = Inr (k, rest)"
  by (induction k) auto

lemma get_field_plain: "plain_name k \<Longrightarrow> get_field [(k, v)] k = Inr v"
  by (auto simp: get_field_def plain_name_def list_all_iff)

lemma str_format_token:
  assumes "plain_name k"
  shows "str_format [(k, v)] (CHR ''{'' # k @ CHR ''}'' # rest) =
     (case str_format [(k, v)] rest of Inl e \<Rightarrow> Inl e | Inr out \<Rightarrow> Inr (v @ out))"
proof -
  from assms obtain c cs where k: "k = c # cs" and "c \<noteq> CHR ''{''"
    by (cases k) (auto simp: plain_name_def)
  moreover from assms have "parse_field (k @ CHR ''}'' # rest) = Inr (k, rest)"
    by (simp add: parse_field_name plain_name_def)
  ultimately show ?thesis
    using get_field_plain [OF assms, of v]
    by (simp del: parse_field.simps)
qed

lemma str_format_render_append:
  "plain_name k \<Longrightarrow> plain_literals segs \<Longrightarrow>
   str_format [(k, v)] (render k segs @ rest) =
     (case str_format [(k, v)] rest of Inl e \<Rightarrow> Inl e | Inr out \<Rightarrow> Inr (fill v segs @ out))"
proof (induction segs)
  case Nil
  then show ?case by (simp split: sum.splits)
next
  case (Cons s segs)
  show ?case
  proof (cases s)
    case (Lit t)
    with Cons show ?thesis
      by (simp add: str_format_literal split: sum.splits del: str_format.simps)
  next
    case Tok
    with Cons show ?thesis
      by (simp add: str_format_token split: sum.splits del: str_format.simps)
  qed
qed

lemma str_format_render:
  "plain_name k \<Longrightarrow> plain_literals segs \<Longrightarrow>
   str_format [(k, v)] (render k segs) = Inr (fill v segs)"
  using str_format_render_append [of k segs v "[]"] by simp

lemma startswith_iff: "startswith s p = (\<exists>b. s = p @ b)"
proof
  assume "startswith s p"
  then have "s = p @ drop (length p) s"
    by (metis append_take_drop_id startswith_def)
  then show "\<exists>b. s = p @ b" ..
next
  assume "\<exists>b. s = p @ b"
  then show "startswith s p"
    by (auto simp: startswith_def)
qed

lemma contains_iff: "contains s p = (\<exists>a b. s = a @ p @ b)"
proof (induction s)
  case Nil
  then show ?case by auto
next
  case (Cons c cs)
  show ?case
  proof
    assume "contains (c # cs) p"
    then consider "startswith (c # cs) p" | "contains cs p" by auto
    then show "\<exists>a b. c # cs = a @ p @ b"
    proof cases
      case 1
      then obtain b where "c # cs = [] @ p @ b"
        by (auto simp: startswith_iff)
      then show ?thesis by blast
    next
      case 2
      with Cons.IH obtain a b where "cs = a @ p @ b" by auto
      then have "c # cs = (c # a) @ p @ b" by simp
      then show ?thesis by blast
    qed
  next
    assume "\<exists>a b. c # cs = a @ p @ b"
    then obtain a b where e: "c # cs = a @ p @ b" by blast
    show "contains (c # cs) p"
    proof (cases a)
      case Nil
      with e have "startswith (c # cs) p"
        by (auto simp: startswith_iff)
      then show ?thesis by simp
    next
      case (Cons x a')
      with e have "cs = a' @ p @ b" by simp
      with Cons.IH show ?thesis by auto
    qed
  qed
qed

lemma contains_set: "contains s p \<Longrightarrow> set p \<subseteq> set s"
  by (auto simp: contains_iff)

lemma contains_render_token:
  "Tok \<in> set segs \<Longrightarrow> contains (render k segs) (CHR ''{'' # k @ [CHR ''}''])"
proof (induction segs)
  case Nil
  then show ?case by simp
next
  case (Cons s segs)
  show ?case
  proof (cases s)
    case (Lit t)
    with Cons obtain a b where "render k segs = a @ (CHR ''{'' # k @ [CHR ''}'']) @ b"
      by (auto simp: contains_iff)
    then have "render k (s # segs) = (t @ a) @ (CHR ''{'' # k @ [CHR ''}'']) @ b"
      using Lit by simp
    then show ?thesis
      unfolding contains_iff by blast
  next
    case Tok
    have "render k (s # segs) = [] @ (CHR ''{'' # k @ [CHR ''}'']) @ render k segs"
      using Tok by simp
    then show ?thesis
      unfolding contains_iff by blast
  qed
qed

lemma render_not_empty:
  assumes "Tok \<in> set segs"
  shows "render k segs \<noteq> []"
proof
  assume "render k segs = []"
  with contains_render_token [OF assms, of k] show False by simp
qed

lemma fill_no_brace:
  "plain_literals segs \<Longrightarrow> CHR ''{'' \<notin> set v \<Longrightarrow> CHR ''{'' \<notin> set (fill v segs)"
  by (induction segs rule: plain_literals.induct) auto

lemma plain_name_api_version: "plain_name ''api_version''"
  by code_simp


lemma plain_name_api_slug: "plain_name ''api_slug''"
  by code_simp

lemma str_format_missing_tmp_dir:
  "str_format [(''api_slug'', sl)] (''{tmp_dir}'' @ post) = Inl (KeyError ''tmp_dir'')"
  by (simp add: get_field_def is_digit_def)


lemma contains_skip:
  "c \<notin> set t \<Longrightarrow> contains (t @ r) (c # p) = contains r (c # p)"
  by (induction t) (auto simp: startswith_def)

lemma fill_no_token: "Tok \<notin> set segs \<Longrightarrow> fill v segs = render k segs"
  by (induction segs rule: plain_literals.induct) auto

lemma render_no_brace:
  "plain_literals segs \<Longrightarrow> Tok \<notin> set segs \<Longrightarrow> CHR ''{'' \<notin> set (render k segs)"
  by (induction segs rule: plain_literals.induct) auto

lemma plain_name_tmp_dir: "plain_name ''tmp_dir''"
  by code_simp

lemma not_contains_no_token:
  assumes "\<not> contains (render k segs) (CHR ''{'' # k @ [CHR ''}''])"
  shows "Tok \<notin> set segs"
  using assms contains_render_token [of segs k] by blast

lemma expand_slug_template:
  assumes "plain_literals segs"
  shows "expand_tmp_dir sl (render ''api_slug'' segs) = Inr (fill sl segs)"
    and "expand_data_dir sl (render ''api_slug'' segs) = Inr (fill sl segs)"
    and "expand_uploads_dir sl t (render ''api_slug'' segs) = Inr (fill sl segs)"
proof -
  show "expand_tmp_dir sl (render ''api_slug'' segs) = Inr (fill sl segs)"
    using assms not_contains_no_token [of "''api_slug''" segs]
    by (auto simp: expand_tmp_dir_def str_format_render plain_name_api_slug
        fill_no_token [of segs sl "''api_slug''"] simp del: str_format.simps)
  show "expand_data_dir sl (render ''api_slug'' segs) = Inr (fill sl segs)"
    using assms not_contains_no_token [of "''api_slug''" segs]
    by (auto simp: expand_data_dir_def str_format_render plain_name_api_slug
        fill_no_token [of segs sl "''api_slug''"] simp del: str_format.simps)
  show "expand_uploads_dir sl t (render ''api_slug'' segs) = Inr (fill sl segs)"
  proof (cases "contains (render ''api_slug'' segs) ''{api_slug}''")
    case True
    then show ?thesis
      using assms
      by (simp add: expand_uploads_dir_def str_format_render plain_name_api_slug
          del: str_format.simps)
  next
    case False
    then have n: "Tok \<notin> set segs"
      using not_contains_no_token [of "''api_slug''" segs] by simp
    then have "CHR ''{'' \<notin> set (render ''api_slug'' segs)"
      using assms by (simp add: render_no_brace)
    then have "\<not> contains (render ''api_slug'' segs) ''{tmp_dir}''"
      using contains_set [of "render ''api_slug'' segs" "''{tmp_dir}''"] by auto
    with False n show ?thesis
      by (simp add: expand_uploads_dir_def fill_no_token [of segs sl "''api_slug''"])
  qed
qed

lemma tmp_template_no_slug_token:
  "plain_literals segs \<Longrightarrow> \<not> contains (render ''tmp_dir'' segs) ''{api_slug}''"
proof (induction segs rule: plain_literals.induct)
  case 1
  then show ?case by simp
next
  case (2 t segs)
  then show ?case
    using contains_skip [of "CHR ''{''" t "render ''tmp_dir'' segs" "''api_slug}''"] by simp
next
  case (3 segs)
  have "contains (''tmp_dir}'' @ render ''tmp_dir'' segs) ''{api_slug}''
      = contains (render ''tmp_dir'' segs) ''{api_slug}''"
    by (rule contains_skip) simp
  with 3 show ?case
    by (simp add: startswith_def)
qed

lemma expand_uploads_tmp_template:
  assumes "plain_literals segs" and "Tok \<in> set segs"
  shows "expand_uploads_dir sl t (render ''tmp_dir'' segs) = Inr (fill t segs)"
proof -
  have "contains (render ''tmp_dir'' segs) ''{tmp_dir}''"
    using contains_render_token [OF assms(2), of "''tmp_dir''"] by simp
  then show ?thesis
    using assms(1) tmp_template_no_slug_token [OF assms(1)]
    by (simp add: expand_uploads_dir_def str_format_render plain_name_tmp_dir
        del: str_format.simps)
qed

text \<open>
  C3 at its failing input, and beyond it. An \<^verbatim>\<open>uploads_dir\<close> that holds the slug
  token takes the slug branch, whose \<^verbatim>\<open>format\<close> call is given the slug only. When the
  template's first brace other than those of slug fields opens a \<^verbatim>\<open>{tmp_dir}\<close> field,
  that field has no argument and the call raises \<^verbatim>\<open>KeyError\<close>, which ends the
  validation of the model: so for \<^verbatim>\<open>{tmp_dir}/{api_slug}\<close>.
\<close>

theorem uploads_both_tokens:
  "(plain_literals segs \<and> contains (render ''api_slug'' segs @ ''{tmp_dir}'' @ post) ''{api_slug}''
      \<longrightarrow> expand_uploads_dir sl t (render ''api_slug'' segs @ ''{tmp_dir}'' @ post)
            = Inl (KeyError ''tmp_dir''))
   \<and> check_paths
       \<lparr>tmp_dir = ''/var/tmp/{api_slug}'', uploads_dir = ''{tmp_dir}/{api_slug}'',
        data_dir = ''/var/lib/data''\<rparr> [''slug'' \<mapsto> ''acme'']
       = Inl (KeyError ''tmp_dir'')
   \<and> ApiConfig_validate [''python'']
        (example_values\<lparr>raw_paths :=
           Some \<lparr>tmp_dir = ''/var/tmp/{api_slug}'', uploads_dir = ''{tmp_dir}/{api_slug}'',
                 data_dir = ''/var/lib/data''\<rparr>\<rparr>)
       = Inl (KeyError ''tmp_dir'')"
proof -
  have 1: "expand_uploads_dir sl t (render ''api_slug'' segs @ ''{tmp_dir}'' @ post)
      = Inl (KeyError ''tmp_dir'')"
    if "plain_literals segs"
      and "contains (render ''api_slug'' segs @ ''{tmp_dir}'' @ post) ''{api_slug}''"
    using that
    by (simp add: expand_uploads_dir_def str_format_render_append [OF plain_name_api_slug]
        str_format_missing_tmp_dir del: str_format.simps append.simps)
  have 2: "check_paths
       \<lparr>tmp_dir = ''/var/tmp/{api_slug}'', uploads_dir = ''{tmp_dir}/{api_slug}'',
        data_dir = ''/var/lib/data''\<rparr> [''slug'' \<mapsto> ''acme'']
       = Inl (KeyError ''tmp_dir'')"
    by code_simp
  have 3: "ApiConfig_validate [''python'']
        (example_values\<lparr>raw_paths :=
           Some \<lparr>tmp_dir = ''/var/tmp/{api_slug}'', uploads_dir = ''{tmp_dir}/{api_slug}'',
                 data_dir = ''/var/lib/data''\<rparr>\<rparr>)
       = Inl (KeyError ''tmp_dir'')"
    by code_simp
  from 1 2 3 show ?thesis by blast
qed

theorem uploads_both_tokens_witness:
  "expand_uploads_dir ''acme'' ''/var/tmp/acme'' ''/srv/{api_slug}/{tmp_dir}/up''
     = Inl (KeyError ''tmp_dir'')
   \<and> expand_uploads_dir ''acme'' ''/var/tmp/acme'' ''{tmp_dir}/{api_slug}''
     = Inl (KeyError ''tmp_dir'')"
proof -
  have c: "contains (render ''api_slug'' [Lit ''/srv/'', Tok, Lit ''/''] @ ''{tmp_dir}'' @ ''/up'')
      ''{api_slug}''"
    "contains (render ''api_slug'' [] @ ''{tmp_dir}'' @ ''/{api_slug}'') ''{api_slug}''"
    by code_simp+
  have p: "plain_literals [Lit ''/srv/'', Tok, Lit ''/'']" "plain_literals []"
    by simp_all
  from uploads_both_tokens [of "[Lit ''/srv/'', Tok, Lit ''/'']" "''/up''" "''acme''" "''/var/tmp/acme''"]
    c(1) p(1)
  have "expand_uploads_dir ''acme'' ''/var/tmp/acme''
      (render ''api_slug'' [Lit ''/srv/'', Tok, Lit ''/''] @ ''{tmp_dir}'' @ ''/up'')
      = Inl (KeyError ''tmp_dir'')"
    by blast
  moreover from uploads_both_tokens [of "[]" "''/{api_slug}''" "''acme''" "''/var/tmp/acme''"]
    c(2) p(2)
  have "expand_uploads_dir ''acme'' ''/var/tmp/acme''
      (render ''api_slug'' [] @ ''{tmp_dir}'' @ ''/{api_slug}'') = Inl (KeyError ''tmp_dir'')"
    by blast
  ultimately show ?thesis by simp
qed


subsection \<open>The filesystem paths\<close>

lemma check_paths_Inr:
  assumes "data ''slug'' = Some sl" and "check_paths val data = Inr val'"
  shows "expand_tmp_dir sl (tmp_dir val) = Inr (tmp_dir val')"
    and "expand_uploads_dir sl (tmp_dir val') (uploads_dir val) = Inr (uploads_dir val')"
    and "expand_data_dir sl (data_dir val) = Inr (data_dir val')"
  using assms by (auto simp: check_paths_def split: sum.splits)

text \<open>
  C7. With the slug available, \<^verbatim>\<open>_check_paths\<close> handles \<^verbatim>\<open>tmp_dir\<close>, then
  \<^verbatim>\<open>uploads_dir\<close>, then \<^verbatim>\<open>data_dir\<close>. For directories made of brace-free text and
  slug fields it returns the record with every slug field of the three replaced by the
  slug; for an \<^verbatim>\<open>uploads_dir\<close> made of brace-free text and \<^verbatim>\<open>{tmp_dir}\<close> fields it
  returns each such field replaced by the value \<^verbatim>\<open>tmp_dir\<close> has after its own
  expansion. On any record that it returns, a directory without a token is as it was,
  and a record with no token at all, or met with no slug available, is returned
  unchanged. For the slug \<^verbatim>\<open>acme\<close>, \<^verbatim>\<open>/var/tmp/{api_slug}\<close> and \<^verbatim>\<open>{tmp_dir}/uploads\<close>
  become \<^verbatim>\<open>/var/tmp/acme\<close> and \<^verbatim>\<open>/var/tmp/acme/uploads\<close>. The order shows in the
  exception that leaves: the one of \<^verbatim>\<open>tmp_dir\<close> before the one of \<^verbatim>\<open>uploads_dir\<close>,
  that one before the one of \<^verbatim>\<open>data_dir\<close>.
\<close>

theorem check_paths_resolution:
  "(plain_literals tsegs \<and> plain_literals usegs \<and> plain_literals dsegs
      \<and> data ''slug'' = Some sl \<longrightarrow>
      check_paths
        \<lparr>tmp_dir = render ''api_slug'' tsegs, uploads_dir = render ''api_slug'' usegs,
         data_dir = render ''api_slug'' dsegs\<rparr> data
        = Inr \<lparr>tmp_dir = fill sl tsegs, uploads_dir = fill sl usegs, data_dir = fill sl dsegs\<rparr>
      \<and> (Tok \<in> set usegs \<longrightarrow>
           check_paths
             \<lparr>tmp_dir = render ''api_slug'' tsegs, uploads_dir = render ''tmp_dir'' usegs,
              data_dir = render ''api_slug'' dsegs\<rparr> data
             = Inr \<lparr>tmp_dir = fill sl tsegs, uploads_dir = fill (fill sl tsegs) usegs,
                    data_dir = fill sl dsegs\<rparr>))
   \<and> (data ''slug'' = Some sl \<and> check_paths val data = Inr val' \<longrightarrow>
      (if contains (tmp_dir val) ''{api_slug}''
       then str_format [(''api_slug'', sl)] (tmp_dir val) = Inr (tmp_dir val')
       else tmp_dir val' = tmp_dir val)
      \<and> (if contains (uploads_dir val) ''{api_slug}''
         then str_format [(''api_slug'', sl)] (uploads_dir val) = Inr (uploads_dir val')
         else if contains (uploads_dir val) ''{tmp_dir}''
         then str_format [(''tmp_dir'', tmp_dir val')] (uploads_dir val) = Inr (uploads_dir val')
         else uploads_dir val' = uploads_dir val)
      \<and> (if contains (data_dir val) ''{api_slug}''
         then str_format [(''api_slug'', sl)] (data_dir val) = Inr (data_dir val')
         else data_dir val' = data_dir val))
   \<and> (\<not> contains (tmp_dir val) ''{api_slug}'' \<and> \<not> contains (uploads_dir val) ''{api_slug}''
        \<and> \<not> contains (uploads_dir val) ''{tmp_dir}'' \<and> \<not> contains (data_dir val) ''{api_slug}''
        \<longrightarrow> check_paths val data = Inr val)
   \<and> (data ''slug'' = None \<longrightarrow> check_paths val data = Inr val)
   \<and> check_paths
         \<lparr>tmp_dir = ''/var/tmp/{api_slug}'', uploads_dir = ''{tmp_dir}/uploads'',
          data_dir = ''/var/lib/data''\<rparr> [''slug'' \<mapsto> ''acme'']
       = Inr \<lparr>tmp_dir = ''/var/tmp/acme'', uploads_dir = ''/var/tmp/acme/uploads'',
              data_dir = ''/var/lib/data''\<rparr>
   \<and> check_paths
         \<lparr>tmp_dir = ''{api_slug}{a}'', uploads_dir = ''{api_slug}{b}'', data_dir = ''{api_slug}{c}''\<rparr>
         [''slug'' \<mapsto> ''acme''] = Inl (KeyError ''a'')
   \<and> check_paths
         \<lparr>tmp_dir = ''/{api_slug}'', uploads_dir = ''{api_slug}{b}'', data_dir = ''{api_slug}{c}''\<rparr>
         [''slug'' \<mapsto> ''acme''] = Inl (KeyError ''b'')
   \<and> check_paths
         \<lparr>tmp_dir = ''/{api_slug}'', uploads_dir = ''{tmp_dir}/up'', data_dir = ''{api_slug}{c}''\<rparr>
         [''slug'' \<mapsto> ''acme''] = Inl (KeyError ''c'')"
proof -
  have tot: "check_paths
        \<lparr>tmp_dir = render ''api_slug'' tsegs, uploads_dir = render ''api_slug'' usegs,
         data_dir = render ''api_slug'' dsegs\<rparr> data
        = Inr \<lparr>tmp_dir = fill sl tsegs, uploads_dir = fill sl usegs, data_dir = fill sl dsegs\<rparr>"
    if "plain_literals tsegs" "plain_literals usegs" "plain_literals dsegs" "data ''slug'' = Some sl"
    using that by (simp add: check_paths_def expand_slug_template)
  have tmp: "check_paths
        \<lparr>tmp_dir = render ''api_slug'' tsegs, uploads_dir = render ''tmp_dir'' usegs,
         data_dir = render ''api_slug'' dsegs\<rparr> data
        = Inr \<lparr>tmp_dir = fill sl tsegs, uploads_dir = fill (fill sl tsegs) usegs,
               data_dir = fill sl dsegs\<rparr>"
    if "plain_literals tsegs" "plain_literals usegs" "plain_literals dsegs" "data ''slug'' = Some sl"
      "Tok \<in> set usegs"
    using that by (simp add: check_paths_def expand_slug_template expand_uploads_tmp_template)
  have ex: "check_paths
         \<lparr>tmp_dir = ''/var/tmp/{api_slug}'', uploads_dir = ''{tmp_dir}/uploads'',
          data_dir = ''/var/lib/data''\<rparr> [''slug'' \<mapsto> ''acme'']
       = Inr \<lparr>tmp_dir = ''/var/tmp/acme'', uploads_dir = ''/var/tmp/acme/uploads'',
              data_dir = ''/var/lib/data''\<rparr>"
    by code_simp
  have e1: "check_paths
         \<lparr>tmp_dir = ''{api_slug}{a}'', uploads_dir = ''{api_slug}{b}'', data_dir = ''{api_slug}{c}''\<rparr>
         [''slug'' \<mapsto> ''acme''] = Inl (KeyError ''a'')"
    by code_simp
  have e2: "check_paths
         \<lparr>tmp_dir = ''/{api_slug}'', uploads_dir = ''{api_slug}{b}'', data_dir = ''{api_slug}{c}''\<rparr>
         [''slug'' \<mapsto> ''acme''] = Inl (KeyError ''b'')"
    by code_simp
  have e3: "check_paths
         \<lparr>tmp_dir = ''/{api_slug}'', uploads_dir = ''{tmp_dir}/up'', data_dir = ''{api_slug}{c}''\<rparr>
         [''slug'' \<mapsto> ''acme''] = Inl (KeyError ''c'')"
    by code_simp
  have same: "check_paths val data = Inr val"
    if "\<not> contains (tmp_dir val) ''{api_slug}''" "\<not> contains (uploads_dir val) ''{api_slug}''"
      "\<not> contains (uploads_dir val) ''{tmp_dir}''" "\<not> contains (data_dir val) ''{api_slug}''"
    using that
    by (simp add: check_paths_def expand_tmp_dir_def expand_uploads_dir_def expand_data_dir_def
        split: option.splits)
  have none: "check_paths val data = Inr val" if "data ''slug'' = None"
    using that by (simp add: check_paths_def)
  have ord: "(if contains (tmp_dir val) ''{api_slug}''
       then str_format [(''api_slug'', sl)] (tmp_dir val) = Inr (tmp_dir val')
       else tmp_dir val' = tmp_dir val)
      \<and> (if contains (uploads_dir val) ''{api_slug}''
         then str_format [(''api_slug'', sl)] (uploads_dir val) = Inr (uploads_dir val')
         else if contains (uploads_dir val) ''{tmp_dir}''
         then str_format [(''tmp_dir'', tmp_dir val')] (uploads_dir val) = Inr (uploads_dir val')
         else uploads_dir val' = uploads_dir val)
      \<and> (if contains (data_dir val) ''{api_slug}''
         then str_format [(''api_slug'', sl)] (data_dir val) = Inr (data_dir val')
         else data_dir val' = data_dir val)"
    if "data ''slug'' = Some sl" "check_paths val data = Inr val'"
    using check_paths_Inr [OF that]
    by (auto simp: expand_tmp_dir_def expand_uploads_dir_def expand_data_dir_def split: if_splits)
  from tot tmp ex e1 e2 e3 same none ord show ?thesis by blast
qed

theorem check_paths_resolution_witness:
  "check_paths
     \<lparr>tmp_dir = ''/var/tmp/{api_slug}'', uploads_dir = ''/srv/{api_slug}/up'',
      data_dir = ''/data/{api_slug}''\<rparr> [''slug'' \<mapsto> ''acme'']
     = Inr \<lparr>tmp_dir = ''/var/tmp/acme'', uploads_dir = ''/srv/acme/up'', data_dir = ''/data/acme''\<rparr>
   \<and> check_paths
     \<lparr>tmp_dir = ''/var/tmp/{api_slug}'', uploads_dir = ''{tmp_dir}/uploads'',
      data_dir = ''/data/{api_slug}''\<rparr> [''slug'' \<mapsto> ''acme'']
     = Inr \<lparr>tmp_dir = ''/var/tmp/acme'', uploads_dir = ''/var/tmp/acme/uploads'',
            data_dir = ''/data/acme''\<rparr>
   \<and> check_paths \<lparr>tmp_dir = ''/tmp'', uploads_dir = ''/srv/uploads'', data_dir = ''/srv/data''\<rparr>
         [''slug'' \<mapsto> ''acme'']
       = Inr \<lparr>tmp_dir = ''/tmp'', uploads_dir = ''/srv/uploads'', data_dir = ''/srv/data''\<rparr>"
proof -
  let ?d = "[''slug'' \<mapsto> ''acme'']"
  let ?t = "[Lit ''/var/tmp/'', Tok]"
  let ?u = "[Lit ''/srv/'', Tok, Lit ''/up'']"
  let ?w = "[Tok, Lit ''/uploads'']"
  let ?c = "[Lit ''/data/'', Tok]"
  let ?plain = "\<lparr>tmp_dir = ''/tmp'', uploads_dir = ''/srv/uploads'', data_dir = ''/srv/data''\<rparr>"
  have p: "plain_literals ?t" "plain_literals ?u" "plain_literals ?w" "plain_literals ?c"
    "Tok \<in> set ?w" "?d ''slug'' = Some ''acme''"
    by simp_all
  have c: "\<not> contains (tmp_dir ?plain) ''{api_slug}''" "\<not> contains (uploads_dir ?plain) ''{api_slug}''"
    "\<not> contains (uploads_dir ?plain) ''{tmp_dir}''" "\<not> contains (data_dir ?plain) ''{api_slug}''"
    by code_simp+
  from check_paths_resolution [of ?t ?u ?c ?d "''acme''" ?plain ?plain] p(1,2,4,6)
  have 1: "check_paths
        \<lparr>tmp_dir = render ''api_slug'' ?t, uploads_dir = render ''api_slug'' ?u,
         data_dir = render ''api_slug'' ?c\<rparr> ?d
        = Inr \<lparr>tmp_dir = fill ''acme'' ?t, uploads_dir = fill ''acme'' ?u,
               data_dir = fill ''acme'' ?c\<rparr>"
    by blast
  from check_paths_resolution [of ?t ?w ?c ?d "''acme''" ?plain ?plain] p(1,3,4,5,6)
  have 2: "check_paths
        \<lparr>tmp_dir = render ''api_slug'' ?t, uploads_dir = render ''tmp_dir'' ?w,
         data_dir = render ''api_slug'' ?c\<rparr> ?d
        = Inr \<lparr>tmp_dir = fill ''acme'' ?t, uploads_dir = fill (fill ''acme'' ?t) ?w,
               data_dir = fill ''acme'' ?c\<rparr>"
    by blast
  from check_paths_resolution [of ?t ?u ?c ?d "''acme''" ?plain ?plain] c
  have 3: "check_paths ?plain ?d = Inr ?plain"
    by blast
  from 1 2 3 show ?thesis by simp
qed


subsection \<open>The route prefix\<close>

text \<open>
  C8, as the code has it. A prefix made of brace-free text and at least one
  \<^verbatim>\<open>{api_version}\<close> field, with the version available, is formatted in one pass: every
  field is replaced by the version, taken as it is, and nothing else changes; when the
  version holds no opening brace, the result holds no token. With no version available
  the prefix is returned as it was. The version \<^verbatim>\<open>v2\<close> turns \<^verbatim>\<open>/api/{api_version}\<close> into
  \<^verbatim>\<open>/api/v2\<close>.
\<close>

theorem check_prefix_template:
  "(plain_literals segs \<and> Tok \<in> set segs \<and> data ''version'' = Some v \<longrightarrow>
      check_prefix (render ''api_version'' segs) data = Inr (fill v segs)
      \<and> (CHR ''{'' \<notin> set v \<longrightarrow> \<not> contains (fill v segs) ''{api_version}''))
   \<and> (data ''version'' = None \<longrightarrow> check_prefix val data = Inr val)
   \<and> check_prefix ''/api/{api_version}'' [''version'' \<mapsto> ''v2''] = Inr ''/api/v2''"
proof -
  have 1: "check_prefix (render ''api_version'' segs) data = Inr (fill v segs)"
    if "plain_literals segs" "Tok \<in> set segs" "data ''version'' = Some v"
  proof -
    have "contains (render ''api_version'' segs) ''{api_version}''"
      using contains_render_token [OF that(2), of "''api_version''"] by simp
    then show ?thesis
      using that render_not_empty [OF that(2), of "''api_version''"]
      by (simp add: check_prefix_def str_format_render plain_name_api_version)
  qed
  have 2: "\<not> contains (fill v segs) ''{api_version}''"
    if "plain_literals segs" "CHR ''{'' \<notin> set v"
    using fill_no_brace [OF that] contains_set [of "fill v segs" "''{api_version}''"] by auto
  have 3: "check_prefix val data = Inr val" if "data ''version'' = None"
    using that by (simp add: check_prefix_def)
  have 4: "check_prefix ''/api/{api_version}'' [''version'' \<mapsto> ''v2''] = Inr ''/api/v2''"
    by code_simp
  from 1 2 3 4 show ?thesis by blast
qed

theorem check_prefix_template_witness:
  "check_prefix ''/{api_version}/api/{api_version}/users'' [''version'' \<mapsto> ''v2'']
     = Inr ''/v2/api/v2/users''
   \<and> \<not> contains ''/v2/api/v2/users'' ''{api_version}''
   \<and> check_prefix ''/api/{api_version}'' Map.empty = Inr ''/api/{api_version}''"
proof -
  let ?segs = "[Lit ''/'', Tok, Lit ''/api/'', Tok, Lit ''/users'']"
  note t = check_prefix_template [of ?segs "[''version'' \<mapsto> ''v2'']" "''v2''"
      "''/api/{api_version}''"]
  note u = check_prefix_template [of ?segs Map.empty "''v2''" "''/api/{api_version}''"]
  have "plain_literals ?segs" "Tok \<in> set ?segs" "CHR ''{'' \<notin> set ''v2''"
    by simp_all
  with t have "check_prefix (render ''api_version'' ?segs) [''version'' \<mapsto> ''v2'']
      = Inr (fill ''v2'' ?segs) \<and> \<not> contains (fill ''v2'' ?segs) ''{api_version}''"
    by simp
  moreover from u have "check_prefix ''/api/{api_version}'' Map.empty = Inr ''/api/{api_version}''"
    by simp
  ultimately show ?thesis by simp
qed

text \<open>
  The claim as written speaks of every prefix that contains the token. A doubled brace
  is an escape, so \<^verbatim>\<open>/api/{{api_version}}\<close> contains the token and comes out as
  \<^verbatim>\<open>/api/{api_version}\<close>, token and all; a second field such as \<^verbatim>\<open>{id}\<close> has no
  argument and raises \<^verbatim>\<open>KeyError\<close>; and a version that is itself the token is put in
  without a second pass.
\<close>

theorem prefix_token_remains:
  "contains ''/api/{{api_version}}'' ''{api_version}''
   \<and> check_prefix ''/api/{{api_version}}'' [''version'' \<mapsto> ''v2''] = Inr ''/api/{api_version}''
   \<and> contains ''/api/{api_version}'' ''{api_version}''
   \<and> check_prefix ''/api/{api_version}/{id}'' [''version'' \<mapsto> ''v2''] = Inl (KeyError ''id'')
   \<and> check_prefix ''/api/{api_version}'' [''version'' \<mapsto> ''{api_version}'']
       = Inr ''/api/{api_version}''"
  by code_simp

subsection \<open>The slug\<close>

lemma check_args_raw_slug:
  assumes "check_args argv v = Inr v'"
  shows "raw_slug v' = raw_slug v"
proof (cases argv)
  case Nil
  with assms show ?thesis by (simp add: check_args_def)
next
  case (Cons prog args)
  show ?thesis
  proof (cases "recognized prog")
    case True
    from assms show ?thesis
      unfolding Cons check_args_recognized [OF True]
      by (auto simp: scanned_def split: if_splits)
  next
    case False
    from assms show ?thesis
      unfolding Cons check_args_unrecognized [OF False]
      by (auto split: sum.splits if_splits)
  qed
qed

lemma check_slug_nonempty: "val \<noteq> [] \<Longrightarrow> check_slug val data = val"
  by (simp add: check_slug_def)

lemma validated_slug:
  assumes "ApiConfig_validate argv values = Inr cfg"
  shows "\<exists>s. raw_slug values = Some s \<and> slug cfg = strip_whitespace s \<and> 2 \<le> length (slug cfg)"
proof -
  from assms obtain values' where c: "check_args argv values = Inr values'"
    and v: "validate_fields values' = Inr cfg"
    by (auto dest: ApiConfig_validate_Inr)
  from validate_fields_Inr(2) [OF v] obtain s where
    s: "constr 2 128 (raw_slug values') = Inr s" and
    g: "slug cfg = check_slug s [''name'' \<mapsto> name cfg]"
    by blast
  from s obtain r where r: "raw_slug values' = Some r" "s = strip_whitespace r" "2 \<le> length s"
    by (auto simp: constr_def Let_def split: option.splits if_splits)
  from r(3) have "s \<noteq> []" by auto
  with g have "slug cfg = s" by (simp add: check_slug_nonempty)
  with r check_args_raw_slug [OF c] show ?thesis by simp
qed

text \<open>
  C4 at its failing inputs. The slug field is required and, once stripped, must have at
  least two characters; \<^verbatim>\<open>_check_slug\<close> is an after-validator, so it is called only
  with a value that passed. A raw mapping whose slug is absent, empty or blank is
  therefore rejected, under every launch argument vector, and the slug of a validated
  model is always the stripped raw slug. Called by hand with the empty string,
  \<^verbatim>\<open>_check_slug\<close> would derive \<^verbatim>\<open>my-cool-api\<close> from \<^verbatim>\<open>My Cool API\<close>.
\<close>

theorem empty_slug_rejected:
  "(raw_slug values = None \<or> (\<exists>s. raw_slug values = Some s \<and> strip_whitespace s = [])
      \<longrightarrow> (\<forall>cfg. ApiConfig_validate argv values \<noteq> Inr cfg))
   \<and> (\<forall>cfg. ApiConfig_validate argv values = Inr cfg \<longrightarrow>
        (\<exists>s. raw_slug values = Some s \<and> slug cfg = strip_whitespace s \<and> 2 \<le> length (slug cfg)))
   \<and> check_slug '''' [''name'' \<mapsto> ''My Cool API''] = ''my-cool-api''"
proof -
  have 3: "check_slug '''' [''name'' \<mapsto> ''My Cool API''] = ''my-cool-api''"
    by code_simp
  have 1: "ApiConfig_validate argv values \<noteq> Inr cfg"
    if "raw_slug values = None \<or> (\<exists>s. raw_slug values = Some s \<and> strip_whitespace s = [])"
    for cfg
  proof
    assume "ApiConfig_validate argv values = Inr cfg"
    from validated_slug [OF this] that show False by auto
  qed
  from 1 3 validated_slug show ?thesis by blast
qed

theorem empty_slug_rejected_witness:
  "ApiConfig_validate [''python''] (example_values\<lparr>raw_slug := Some ''''\<rparr>) = Inl ValidationError
   \<and> (\<forall>cfg. ApiConfig_validate [''python''] (example_values\<lparr>raw_slug := None\<rparr>) \<noteq> Inr cfg)
   \<and> (\<forall>cfg. ApiConfig_validate [''python''] (example_values\<lparr>raw_slug := Some ''  ''\<rparr>) \<noteq> Inr cfg)"
proof -
  have a: "ApiConfig_validate [''python''] (example_values\<lparr>raw_slug := Some ''''\<rparr>)
      = Inl ValidationError"
    by code_simp
  have "raw_slug (example_values\<lparr>raw_slug := None\<rparr>) = None"
    by simp
  with empty_slug_rejected [of "example_values\<lparr>raw_slug := None\<rparr>" "[''python'']"]
  have b: "\<forall>cfg. ApiConfig_validate [''python''] (example_values\<lparr>raw_slug := None\<rparr>) \<noteq> Inr cfg"
    by blast
  have "strip_whitespace ''  '' = []"
    by code_simp
  then have "\<exists>s. raw_slug (example_values\<lparr>raw_slug := Some ''  ''\<rparr>) = Some s
      \<and> strip_whitespace s = []"
    by simp
  with empty_slug_rejected [of "example_values\<lparr>raw_slug := Some ''  ''\<rparr>" "[''python'']"]
  have c: "\<forall>cfg. ApiConfig_validate [''python''] (example_values\<lparr>raw_slug := Some ''  ''\<rparr>)
      \<noteq> Inr cfg"
    by blast
  from a b c show ?thesis by blast
qed

end
